theory Spec2Isabelle
  imports Complex_Main "HOL-Library.Sublist" "HOL-Library.Log_Nat"
begin

section \<open>Python strings and values\<close>

text \<open>
  The module \<open>logutil.py\<close> builds log lines out of Python strings. A Python \<open>str\<close> is a
  \<open>string\<close> here; the few string methods the module calls are written out below with
  Python's behaviour.
\<close>

definition backslash :: char where
  "backslash = CHR 0x5C"

definition quote :: char where
  "quote = CHR 0x27"

text \<open>\<open>sub in s\<close>: \<open>sub\<close> occurs in \<open>s\<close> as a contiguous run of characters.\<close>

fun contains :: "string \<Rightarrow> string \<Rightarrow> bool" where
  "contains sub [] = (sub = [])"
| "contains sub (c # s) = (prefix sub (c # s) \<or> contains sub s)"

text \<open>
  \<open>s.replace(old, new)\<close>: every occurrence of \<open>old\<close>, found from the left and not
  overlapping, becomes \<open>new\<close>. With an empty \<open>old\<close> Python puts \<open>new\<close> before every
  character and at the end.
\<close>

function str_replace :: "string \<Rightarrow> string \<Rightarrow> string \<Rightarrow> string" where
  "str_replace old new s =
     (if old = [] then new @ concat (map (\<lambda>c. c # new) s)
      else if s = [] then []
      else if prefix old s then new @ str_replace old new (drop (length old) s)
      else hd s # str_replace old new (tl s))"
  by pat_completeness auto
termination
  by (relation "measure (\<lambda>(old, new, s). length s)") auto

text \<open>\<open>sep.join(xs)\<close>.\<close>

fun join :: "string \<Rightarrow> string list \<Rightarrow> string" where
  "join sep [] = []"
| "join sep [x] = x"
| "join sep (x # y # xs) = x @ sep @ join sep (y # xs)"

text \<open>Decimal digits of a natural number and of an integer, as \<open>str\<close> gives them.\<close>

definition digit_char :: "nat \<Rightarrow> char" where
  "digit_char n = ''0123456789'' ! (n mod 10)"

fun show_nat :: "nat \<Rightarrow> string" where
  "show_nat n = (if n < 10 then [digit_char n] else show_nat (n div 10) @ [digit_char n])"

definition show_int :: "int \<Rightarrow> string" where
  "show_int i = (if i < 0 then CHR ''-'' # show_nat (nat (- i)) else show_nat (nat i))"

text \<open>
  The values an attribute can have. \<open>VOther\<close> stands for any object that is none of the
  others (a float, for instance); it is carried by the text \<open>'{}'.format\<close> gives for it,
  which is all the module ever uses of it.
\<close>

datatype pyvalue =
    VStr string
  | VInt int
  | VBool bool
  | VNone
  | VOther string

text \<open>\<open>'{}'.format(v)\<close>: the natural string form of a value.\<close>

fun py_str :: "pyvalue \<Rightarrow> string" where
  "py_str (VStr s) = s"
| "py_str (VInt i) = show_int i"
| "py_str (VBool b) = (if b then ''True'' else ''False'')"
| "py_str VNone = ''None''"
| "py_str (VOther s) = s"

section \<open>The key-value encoder\<close>

text \<open>
  The separators of the module, with the values the module gives them:
  \<^verbatim>\<open>_KVPSECSEP = ' ; '\<close>, \<^verbatim>\<open>_KVPSEP = ','\<close>, \<^verbatim>\<open>_KVSEP = '='\<close>.
\<close>

definition KVPSECSEP :: string where
  "KVPSECSEP = '' ; ''"

definition KVPSEP :: string where
  "KVPSEP = '',''"

definition KVSEP :: string where
  "KVSEP = ''=''"

text \<open>
  An attribute set is the keyword dictionary \<open>**kvp\<close> of a call, as the list of its
  items in the order \<open>d.items()\<close> yields them. Its names are pairwise different, and
  none of them is the name of a parameter of the function called (Python binds such a
  keyword to the parameter).
\<close>

type_synonym attrs = "(string \<times> pyvalue) list"

text \<open>
  The body of the loop of \<open>_format_kvp\<close>: what is appended to \<open>pairs\<close> for the value
  \<open>v\<close>. The test is made with the separator \<open>sep\<close>, the replacement with the literal
  comma.
\<close>

fun kvp_value :: "string \<Rightarrow> pyvalue \<Rightarrow> pyvalue" where
  "kvp_value sep (VStr v) =
     (if contains sep v then VStr (str_replace '','' [backslash, CHR '',''] v)
      else if length v = 0 then VStr [quote, quote]
      else VStr v)"
| "kvp_value sep v = v"

definition format_kvp :: "attrs \<Rightarrow> string" where
  "format_kvp d =
     (let sep = KVPSEP;
          pairs = map (\<lambda>(k, v). (k, kvp_value sep v)) d
      in join sep (map (\<lambda>(k, v). k @ KVSEP @ py_str v) pairs))"

section \<open>Formatting with named fields\<close>

text \<open>The exceptions of Python that the module can meet.\<close>

datatype exn =
    KeyError string
  | IndexError
  | ValueError
  | TypeError
  | Exception string

text \<open>
  The value of the replacement field \<open>{name}\<close> in \<open>fmt.format(**d)\<close>: the entry of \<open>d\<close>
  under \<open>name\<close>. A field with no name or with a number for a name asks for a positional
  argument, and there is none.
\<close>

definition field_value :: "string \<Rightarrow> (string \<rightharpoonup> pyvalue) \<Rightarrow> exn + pyvalue" where
  "field_value name d =
     (if list_all (\<lambda>c. c \<in> set ''0123456789'') name then Inl IndexError
      else case d name of None \<Rightarrow> Inl (KeyError name) | Some v \<Rightarrow> Inr v)"

text \<open>
  \<open>fmt.format(**d)\<close>, read from the left: \<open>{{\<close> and \<open>}}\<close> are the literal braces,
  \<open>{name}\<close> is replaced by the string form of \<open>d[name]\<close>, a brace that is alone or not
  closed is a \<open>ValueError\<close>. The first failure met from the left is the one raised.
  Conversions (\<open>!r\<close>), format specifications (\<open>:spec\<close>) and attribute or index access
  inside a field are not modelled; no template of the module uses them.
\<close>

function format_str :: "string \<Rightarrow> (string \<rightharpoonup> pyvalue) \<Rightarrow> exn + string" where
  "format_str [] d = Inr []"
| "format_str (c # r) d =
     (if c = CHR ''{'' then
        (if r \<noteq> [] \<and> hd r = CHR ''{'' then
           (case format_str (tl r) d of Inl e \<Rightarrow> Inl e | Inr s \<Rightarrow> Inr (CHR ''{'' # s))
         else if dropWhile (\<lambda>x. x \<noteq> CHR ''}'') r = [] then Inl ValueError
         else
           (case field_value (takeWhile (\<lambda>x. x \<noteq> CHR ''}'') r) d of
              Inl e \<Rightarrow> Inl e
            | Inr v \<Rightarrow>
               (case format_str (tl (dropWhile (\<lambda>x. x \<noteq> CHR ''}'') r)) d of
                  Inl e \<Rightarrow> Inl e
                | Inr s \<Rightarrow> Inr (py_str v @ s))))
      else if c = CHR ''}'' then
        (if r \<noteq> [] \<and> hd r = CHR ''}'' then
           (case format_str (tl r) d of Inl e \<Rightarrow> Inl e | Inr s \<Rightarrow> Inr (CHR ''}'' # s))
         else Inl ValueError)
      else
        (case format_str r d of Inl e \<Rightarrow> Inl e | Inr s \<Rightarrow> Inr (c # s)))"
  by pat_completeness auto
termination
proof (relation "measure (\<lambda>(s, d). length s)")
  fix c :: char and r :: string and d :: "string \<rightharpoonup> pyvalue"
  have "length (tl (dropWhile (\<lambda>x. x \<noteq> CHR ''}'') r)) \<le> length r"
    using length_dropWhile_le [of "\<lambda>x. x \<noteq> CHR ''}''" r] by simp
  then show "((tl (dropWhile (\<lambda>x. x \<noteq> CHR ''}'') r), d), c # r, d)
      \<in> measure (\<lambda>(s, d). length s)"
    by simp
qed auto

section \<open>Timestamps: floating-point numbers\<close>

text \<open>
  A Python \<open>float\<close> is an IEEE 754 double: a finite double is the rational number it
  denotes (\<open>Finite 0\<close> is \<open>0.0\<close>), and the negative zero, the two infinities and the
  not-a-number are values of their own.
\<close>

datatype pyfloat = Finite rat | NegZero | PosInf | NegInf | NaN

text \<open>Rounding to the nearest integer, a tie going to the even one.\<close>

definition round_half_even :: "rat \<Rightarrow> int" where
  "round_half_even q =
     (let f = \<lfloor>q\<rfloor>; r = q - of_int f
      in if r < 1 / 2 then f
         else if 1 / 2 < r then f + 1
         else if even f then f else f + 1)"

text \<open>
  The exponent \<open>e\<close> with \<open>2 ^ e \<le> \<bar>q\<bar> < 2 ^ (e + 1)\<close>, for \<open>q \<noteq> 0\<close>; \<open>x powi e\<close> is the
  power with an integer exponent.
\<close>

definition binade :: "rat \<Rightarrow> int" where
  "binade q =
     (let e = bitlen (fst (quotient_of \<bar>q\<bar>)) - bitlen (snd (quotient_of \<bar>q\<bar>))
      in if 2 powi e \<le> \<bar>q\<bar> then e else e - 1)"

text \<open>
  The double nearest to a rational number (round to nearest, ties to even): 53
  significant bits, the exponent no smaller than that of the subnormal numbers, an
  infinity from \<open>2 ^ 1024\<close> on.
\<close>

definition round_double :: "rat \<Rightarrow> pyfloat" where
  "round_double q =
     (if q = 0 then Finite 0
      else
        let ulp = 2 powi (max (binade q) (- 1022) - 52);
            r = of_int (round_half_even (q / ulp)) * ulp
        in if 2 ^ 1024 \<le> \<bar>r\<bar> then (if q < 0 then NegInf else PosInf)
           else if r = 0 then (if q < 0 then NegZero else Finite 0)
           else Finite r)"

text \<open>\<open>a - b\<close> and \<open>a + b\<close> on floats.\<close>

fun float_neg :: "pyfloat \<Rightarrow> pyfloat" where
  "float_neg (Finite q) = (if q = 0 then NegZero else Finite (- q))"
| "float_neg NegZero = Finite 0"
| "float_neg PosInf = NegInf"
| "float_neg NegInf = PosInf"
| "float_neg NaN = NaN"

fun float_add :: "pyfloat \<Rightarrow> pyfloat \<Rightarrow> pyfloat" where
  "float_add NaN b = NaN"
| "float_add a NaN = NaN"
| "float_add PosInf NegInf = NaN"
| "float_add NegInf PosInf = NaN"
| "float_add PosInf b = PosInf"
| "float_add NegInf b = NegInf"
| "float_add a PosInf = PosInf"
| "float_add a NegInf = NegInf"
| "float_add NegZero NegZero = NegZero"
| "float_add NegZero (Finite b) = Finite b"
| "float_add (Finite a) NegZero = Finite a"
| "float_add (Finite a) (Finite b) = round_double (a + b)"

definition float_sub :: "pyfloat \<Rightarrow> pyfloat \<Rightarrow> pyfloat" where
  "float_sub a b = float_add a (float_neg b)"

text \<open>
  \<open>'{:.6f}'.format(x)\<close>: the decimal expansion of \<open>x\<close> rounded to six places after the
  point (a tie going to the even digit), a minus sign before a negative number.
\<close>

definition pad6 :: "nat \<Rightarrow> string" where
  "pad6 k = replicate (6 - length (show_nat k)) CHR ''0'' @ show_nat k"

definition fixed6 :: "rat \<Rightarrow> string" where
  "fixed6 q =
     (let n = nat (round_half_even (q * 1000000))
      in show_nat (n div 1000000) @ ''.'' @ pad6 (n mod 1000000))"

fun format_6f :: "pyfloat \<Rightarrow> string" where
  "format_6f (Finite q) = (if q < 0 then CHR ''-'' # fixed6 (- q) else fixed6 q)"
| "format_6f NegZero = ''-0.000000''"
| "format_6f PosInf = ''inf''"
| "format_6f NegInf = ''-inf''"
| "format_6f NaN = ''nan''"

section \<open>The module and its surroundings\<close>

text \<open>
  What a call can read or change: the two public settings of the module
  (\<open>include_timestamp\<close> and \<open>DEFAULT_LEVEL\<close>, which a program may assign), the clock
  behind \<open>time.time()\<close>, given as the sequence of its readings together with the number
  of readings taken so far, and the calls made to \<open>logger.log\<close>, oldest first. The
  field \<open>isoformat\<close> is \<open>datetime.fromtimestamp(t).isoformat()\<close> on this host; it depends
  on the local time zone and is taken as given.
\<close>

record 'l world =
  include_timestamp :: bool
  DEFAULT_LEVEL :: int
  clock :: "nat \<Rightarrow> pyfloat"
  reads :: nat
  isoformat :: "pyfloat \<Rightarrow> string"
  emitted :: "('l \<times> int \<times> string) list"


definition time_time :: "'l world \<Rightarrow> pyfloat \<times> 'l world" where
  "time_time w = (clock w (reads w), w\<lparr>reads := Suc (reads w)\<rparr>)"

definition logger_log :: "'l \<Rightarrow> int \<Rightarrow> string \<Rightarrow> 'l world \<Rightarrow> 'l world" where
  "logger_log logger level msg w = w\<lparr>emitted := emitted w @ [(logger, level, msg)]\<rparr>"

definition format_timestamp :: "'l world \<Rightarrow> pyfloat \<Rightarrow> string" where
  "format_timestamp w t = isoformat w t"

text \<open>
  \<open>_MESSAGE_FORMATS\<close>: the family without timestamps at index 0, the family with
  timestamps at index 1, each a dictionary from the kind of message to its template.
\<close>

definition MESSAGE_FORMATS :: "(string \<times> string) list list" where
  "MESSAGE_FORMATS =
     [[(''entry'', ''{func_name}.begin'' @ KVPSECSEP @ ''{kvp}''),
       (''exit'', ''{func_name}.end ({dur})'' @ KVPSECSEP @ ''{kvp}''),
       (''exit_nodur'', ''{func_name}.end'' @ KVPSECSEP @ ''{kvp}''),
       (''event'', ''{func_name}'' @ KVPSECSEP @ ''{kvp}'')],
      [(''entry'', ''{timestamp} {func_name}.begin'' @ KVPSECSEP @ ''{kvp}''),
       (''exit'', ''{timestamp} {func_name}.end ({dur})'' @ KVPSECSEP @ ''{kvp}''),
       (''exit_nodur'', ''{func_name}.end'' @ KVPSECSEP @ ''{kvp}''),
       (''event'', ''{timestamp} {func_name}'' @ KVPSECSEP @ ''{kvp}'')]]"

text \<open>\<open>_default_message\<close>: \<open>_MESSAGE_FORMATS[include_timestamp][mtype]\<close>.\<close>

definition default_message :: "'l world \<Rightarrow> string \<Rightarrow> exn + string" where
  "default_message w mtype =
     (case map_of (MESSAGE_FORMATS ! (if include_timestamp w then 1 else 0)) mtype of
        None \<Rightarrow> Inl (KeyError mtype)
      | Some fmt \<Rightarrow> Inr fmt)"

section \<open>The exported functions\<close>

text \<open>
  An optional parameter is an \<open>option\<close>: \<open>None\<close> is the argument left out (or Python's
  \<open>None\<close>, where that is the default). A call returns its result, or the exception it
  raised, together with the world it leaves.
\<close>

definition event ::
  "'l \<Rightarrow> string \<Rightarrow> int option \<Rightarrow> string option \<Rightarrow> attrs \<Rightarrow> 'l world
     \<Rightarrow> (exn + pyfloat) \<times> 'l world" where
  "event logger name level fmt kvp w =
     (let (t0, w1) = time_time w;
          kvp_str = (if kvp \<noteq> [] then format_kvp kvp else []);
          d = [''timestamp'' \<mapsto> VStr (format_timestamp w1 t0),
               ''func_name'' \<mapsto> VStr name,
               ''kvp'' \<mapsto> VStr kvp_str]
      in case (case fmt of
                 None \<Rightarrow> default_message w1 ''event''
               | Some f \<Rightarrow> if f \<noteq> [] then Inr f else default_message w1 ''event'') of
           Inl e \<Rightarrow> (Inl e, w1)
         | Inr fmt' \<Rightarrow>
            (case format_str fmt' d of
               Inl e \<Rightarrow> (Inl e, w1)
             | Inr msg \<Rightarrow>
                (let level' = (case level of None \<Rightarrow> DEFAULT_LEVEL w1 | Some l \<Rightarrow> l)
                 in (Inr t0, logger_log logger level' msg w1))))"

definition start ::
  "'l \<Rightarrow> string \<Rightarrow> int option \<Rightarrow> attrs \<Rightarrow> 'l world \<Rightarrow> (exn + pyfloat) \<times> 'l world" where
  "start logger name level kvp w =
     (let (t0, w1) = time_time w;
          kvp_str = (if kvp \<noteq> [] then format_kvp kvp else []);
          d = [''timestamp'' \<mapsto> VStr (format_timestamp w1 t0),
               ''func_name'' \<mapsto> VStr name,
               ''kvp'' \<mapsto> VStr kvp_str]
      in case default_message w1 ''entry'' of
           Inl e \<Rightarrow> (Inl e, w1)
         | Inr fmt \<Rightarrow>
            (case format_str fmt d of
               Inl e \<Rightarrow> (Inl e, w1)
             | Inr msg \<Rightarrow>
                (let level' = (case level of None \<Rightarrow> DEFAULT_LEVEL w1 | Some l \<Rightarrow> l)
                 in (Inr t0, logger_log logger level' msg w1))))"

text \<open>
  The dictionary \<open>d\<close> that \<open>end\<close> hands to its template: the four fields it always has,
  and \<open>dur\<close> when a start time was given. The parameter \<open>status_code\<close> is 0 when left
  out.
\<close>

definition end_fields ::
  "string \<Rightarrow> string \<Rightarrow> string \<Rightarrow> pyvalue option \<Rightarrow> pyfloat \<Rightarrow> pyfloat option
     \<Rightarrow> (string \<rightharpoonup> pyvalue)" where
  "end_fields timestamp name kvp_str status_code t1 t0 =
     (let d = [''timestamp'' \<mapsto> VStr timestamp,
               ''func_name'' \<mapsto> VStr name,
               ''kvp'' \<mapsto> VStr kvp_str,
               ''status'' \<mapsto> (case status_code of None \<Rightarrow> VInt 0 | Some c \<Rightarrow> c)]
      in case t0 of
           None \<Rightarrow> d
         | Some a \<Rightarrow> d(''dur'' \<mapsto> VStr (format_6f (float_sub t1 a))))"

definition end_activity ::
  "'l \<Rightarrow> string \<Rightarrow> pyfloat option \<Rightarrow> int option \<Rightarrow> pyvalue option \<Rightarrow> attrs \<Rightarrow> 'l world
     \<Rightarrow> (exn + unit) \<times> 'l world" where
  "end_activity logger name t0 level status_code kvp w =
     (let (t1, w1) = time_time w;
          kvp_str = (if kvp \<noteq> [] then format_kvp kvp else []);
          d = end_fields (format_timestamp w1 t1) name kvp_str status_code t1 t0
      in case (if t0 \<noteq> None then default_message w1 ''exit''
               else default_message w1 ''exit_nodur'') of
           Inl e \<Rightarrow> (Inl e, w1)
         | Inr fmt \<Rightarrow>
            (let level' = (case level of None \<Rightarrow> DEFAULT_LEVEL w1 | Some l \<Rightarrow> l)
             in case format_str fmt d of
                  Inl e \<Rightarrow> (Inl e, w1)
                | Inr msg \<Rightarrow> (Inr (), logger_log logger level' msg w1)))"

section \<open>The wrappers\<close>




section \<open>Reading a fragment back\<close>

text \<open>
  The reader's side of the encoding, as the specification words it: \<open>s.split(c)\<close> for a
  separator of one character, and a fragment split on the pair separator, each piece
  then split on the key separator.
\<close>

fun split_on :: "char \<Rightarrow> string \<Rightarrow> string list" where
  "split_on c [] = [[]]"
| "split_on c (x # xs) =
     (if x = c then [] # split_on c xs
      else (case split_on c xs of [] \<Rightarrow> [[x]] | p # ps \<Rightarrow> (x # p) # ps))"



section \<open>Example inputs\<close>

text \<open>
  A world in which timestamps are included and the default level is \<open>DEBUG\<close> (10): the
  clock reads 1700000000.0 first and 2.5 seconds more at every later reading, and the
  host renders these instants in UTC.
\<close>

definition example_world :: "string world" where
  "example_world =
     \<lparr>include_timestamp = True,
      DEFAULT_LEVEL = 10,
      clock = (\<lambda>n. Finite (1700000000 + of_nat n * 5 / 2)),
      reads = 0,
      isoformat = (\<lambda>t. if t = Finite 1700000000 then ''2023-11-14T22:13:20''
                       else ''2023-11-14T22:13:22.500000''),
      emitted = []\<rparr>"





section \<open>Strings, digits and the encoder\<close>

text \<open>
  The equations of \<open>str_replace\<close> and \<open>show_nat\<close> call themselves under a condition, so
  they are taken out of the simplifier and used one step at a time.
\<close>

declare str_replace.simps [simp del]
declare show_nat.simps [simp del]

text \<open>With a separator of one character, \<open>in\<close> and \<open>replace\<close> work character by character.\<close>

lemma contains_single: "contains [c] s \<longleftrightarrow> c \<in> set s"
  by (induction s) auto

lemma str_replace_single:
  "str_replace [c] new s = concat (map (\<lambda>x. if x = c then new else [x]) s)"
proof (induction s)
  case Nil
  show ?case by (subst str_replace.simps) simp
next
  case (Cons x xs)
  then show ?case
    by (subst str_replace.simps) auto
qed

lemma show_nat_lt10: "n < 10 \<Longrightarrow> show_nat n = [digit_char n]"
  by (subst show_nat.simps) simp

lemma show_nat_ge10: "10 \<le> n \<Longrightarrow> show_nat n = show_nat (n div 10) @ [digit_char n]"
  by (subst show_nat.simps) simp

lemma digit_char_digit: "digit_char n \<in> set ''0123456789''"
proof -
  have "n mod 10 < length ''0123456789''" by simp
  then show ?thesis unfolding digit_char_def by (rule nth_mem)
qed

lemma show_nat_digits: "set (show_nat n) \<subseteq> set ''0123456789''"
proof (induction n rule: show_nat.induct)
  case (1 n)
  show ?case
  proof (cases "n < 10")
    case True
    then show ?thesis using digit_char_digit [of n] by (simp add: show_nat_lt10)
  next
    case False
    then show ?thesis using 1 digit_char_digit [of n] by (simp add: show_nat_ge10)
  qed
qed




text \<open>Splitting what was joined.\<close>

lemma split_on_nonempty: "split_on c s \<noteq> []"
  by (induction s) (auto split: list.splits)




text \<open>Rendering of one value by the encoder.\<close>

lemma kvp_value_str:
  "kvp_value KVPSEP (VStr v) =
     VStr (if CHR '','' \<in> set v
      then concat (map (\<lambda>c. if c = CHR '','' then [backslash, CHR '',''] else [c]) v)
      else if v = [] then [quote, quote] else v)"
  by (simp add: KVPSEP_def contains_single str_replace_single)

lemma kvp_value_other:
  "kvp_value sep (VInt i) = VInt i" "kvp_value sep (VBool b) = VBool b"
  "kvp_value sep VNone = VNone" "kvp_value sep (VOther s) = VOther s"
  by simp_all

declare kvp_value.simps [simp del]

lemma format_kvp_eq:
  "format_kvp d = join '','' (map (\<lambda>(k, v). k @ ''='' @ py_str (kvp_value KVPSEP v)) d)"
  by (simp add: format_kvp_def Let_def KVPSEP_def KVSEP_def comp_def case_prod_unfold)




section \<open>The templates and the three calls\<close>

text \<open>What \<open>format\<close> makes of each template of the module.\<close>

lemma format_entry:
  assumes "d ''func_name'' = Some (VStr n)" and "d ''kvp'' = Some (VStr k)"
  shows "format_str ''{func_name}.begin ; {kvp}'' d = Inr (n @ ''.begin ; '' @ k)"
  using assms by (simp add: field_value_def)

lemma format_exit:
  assumes "d ''func_name'' = Some (VStr n)" and "d ''kvp'' = Some (VStr k)"
    and "d ''dur'' = Some (VStr u)"
  shows "format_str ''{func_name}.end ({dur}) ; {kvp}'' d
           = Inr (n @ ''.end ('' @ u @ '') ; '' @ k)"
  using assms by (simp add: field_value_def)

lemma format_exit_nodur:
  assumes "d ''func_name'' = Some (VStr n)" and "d ''kvp'' = Some (VStr k)"
  shows "format_str ''{func_name}.end ; {kvp}'' d = Inr (n @ ''.end ; '' @ k)"
  using assms by (simp add: field_value_def)

lemma format_event:
  assumes "d ''func_name'' = Some (VStr n)" and "d ''kvp'' = Some (VStr k)"
  shows "format_str ''{func_name} ; {kvp}'' d = Inr (n @ '' ; '' @ k)"
  using assms by (simp add: field_value_def)

lemma format_entry_ts:
  assumes "d ''func_name'' = Some (VStr n)" and "d ''kvp'' = Some (VStr k)"
    and "d ''timestamp'' = Some (VStr t)"
  shows "format_str ''{timestamp} {func_name}.begin ; {kvp}'' d
           = Inr (t @ '' '' @ n @ ''.begin ; '' @ k)"
  using assms by (simp add: field_value_def)

lemma format_exit_ts:
  assumes "d ''func_name'' = Some (VStr n)" and "d ''kvp'' = Some (VStr k)"
    and "d ''dur'' = Some (VStr u)" and "d ''timestamp'' = Some (VStr t)"
  shows "format_str ''{timestamp} {func_name}.end ({dur}) ; {kvp}'' d
           = Inr (t @ '' '' @ n @ ''.end ('' @ u @ '') ; '' @ k)"
  using assms by (simp add: field_value_def)

lemma format_event_ts:
  assumes "d ''func_name'' = Some (VStr n)" and "d ''kvp'' = Some (VStr k)"
    and "d ''timestamp'' = Some (VStr t)"
  shows "format_str ''{timestamp} {func_name} ; {kvp}'' d
           = Inr (t @ '' '' @ n @ '' ; '' @ k)"
  using assms by (simp add: field_value_def)

declare format_str.simps [simp del]

lemma default_message_entry:
  "default_message w ''entry'' =
     Inr (if include_timestamp w then ''{timestamp} {func_name}.begin ; {kvp}''
          else ''{func_name}.begin ; {kvp}'')"
  by (simp add: default_message_def MESSAGE_FORMATS_def KVPSECSEP_def)

lemma default_message_exit:
  "default_message w ''exit'' =
     Inr (if include_timestamp w then ''{timestamp} {func_name}.end ({dur}) ; {kvp}''
          else ''{func_name}.end ({dur}) ; {kvp}'')"
  by (simp add: default_message_def MESSAGE_FORMATS_def KVPSECSEP_def)

lemma default_message_exit_nodur:
  "default_message w ''exit_nodur'' = Inr ''{func_name}.end ; {kvp}''"
  by (simp add: default_message_def MESSAGE_FORMATS_def KVPSECSEP_def)

lemma default_message_event:
  "default_message w ''event'' =
     Inr (if include_timestamp w then ''{timestamp} {func_name} ; {kvp}''
          else ''{func_name} ; {kvp}'')"
  by (simp add: default_message_def MESSAGE_FORMATS_def KVPSECSEP_def)

lemma format_kvp_Nil: "format_kvp [] = []"
  by (simp add: format_kvp_def)

lemma kvp_str_eq: "(if kvp \<noteq> [] then format_kvp kvp else []) = format_kvp kvp"
  by (simp add: format_kvp_Nil)

text \<open>
  What a call of \<open>start\<close>, of \<open>event\<close> with the template of the module, and of \<open>end\<close>
  returns, and the world it leaves.
\<close>

lemma start_result:
  "start logger name level kvp w =
     (Inr (clock w (reads w)),
      w\<lparr>reads := Suc (reads w),
        emitted := emitted w @
          [(logger, (case level of None \<Rightarrow> DEFAULT_LEVEL w | Some l \<Rightarrow> l),
            (if include_timestamp w then isoformat w (clock w (reads w)) @ '' '' else [])
              @ name @ ''.begin ; '' @ format_kvp kvp)]\<rparr>)"
  by (cases "include_timestamp w")
     (simp_all add: start_def time_time_def kvp_str_eq default_message_entry
       format_entry format_entry_ts format_timestamp_def logger_log_def
       split: option.splits)

lemma event_default_result:
  assumes "fmt = None \<or> fmt = Some []"
  shows "event logger name level fmt kvp w =
     (Inr (clock w (reads w)),
      w\<lparr>reads := Suc (reads w),
        emitted := emitted w @
          [(logger, (case level of None \<Rightarrow> DEFAULT_LEVEL w | Some l \<Rightarrow> l),
            (if include_timestamp w then isoformat w (clock w (reads w)) @ '' '' else [])
              @ name @ '' ; '' @ format_kvp kvp)]\<rparr>)"
  using assms
  by (cases "include_timestamp w")
     (auto simp add: event_def time_time_def kvp_str_eq default_message_event
       format_event format_event_ts format_timestamp_def logger_log_def
       split: option.splits)

lemma end_with_start_result:
  "end_activity logger name (Some a) level status_code kvp w =
     (Inr (),
      w\<lparr>reads := Suc (reads w),
        emitted := emitted w @
          [(logger, (case level of None \<Rightarrow> DEFAULT_LEVEL w | Some l \<Rightarrow> l),
            (if include_timestamp w then isoformat w (clock w (reads w)) @ '' '' else [])
              @ name @ ''.end ('' @ format_6f (float_sub (clock w (reads w)) a)
              @ '') ; '' @ format_kvp kvp)]\<rparr>)"
  by (cases "include_timestamp w")
     (simp_all add: end_activity_def time_time_def kvp_str_eq default_message_exit
       end_fields_def format_exit format_exit_ts format_timestamp_def logger_log_def
       split: option.splits)

lemma end_without_start_result:
  "end_activity logger name None level status_code kvp w =
     (Inr (),
      w\<lparr>reads := Suc (reads w),
        emitted := emitted w @
          [(logger, (case level of None \<Rightarrow> DEFAULT_LEVEL w | Some l \<Rightarrow> l),
            name @ ''.end ; '' @ format_kvp kvp)]\<rparr>)"
  by (simp add: end_activity_def time_time_def kvp_str_eq default_message_exit_nodur
       end_fields_def format_exit_nodur format_timestamp_def logger_log_def
       split: option.splits)

section \<open>Rounding to a double and printing six decimals\<close>

text \<open>The exponent that \<open>binade\<close> computes is the one of its description, and the only one.\<close>

lemma binade_bounds:
  assumes "q \<noteq> 0"
  shows "2 powi (binade q) \<le> \<bar>q\<bar>" and "\<bar>q\<bar> < 2 powi (binade q + 1)"
proof -
  define a where "a = \<bar>q\<bar>"
  define n where "n = fst (quotient_of a)"
  define d where "d = snd (quotient_of a)"
  have apos: "0 < a" using assms by (simp add: a_def)
  have qo: "quotient_of a = (n, d)" by (simp add: n_def d_def)
  have dpos: "0 < d" using quotient_of_denom_pos [OF qo] .
  have adiv: "a = of_int n / of_int d" using quotient_of_div [OF qo] .
  have npos: "0 < n"
    using apos dpos adiv by (simp add: zero_less_divide_iff)
  define bn where "bn = bitlen n"
  define bd where "bd = bitlen d"
  have bn1: "1 \<le> bn" using npos by (simp add: bn_def bitlen_alt_def)
  have bd1: "1 \<le> bd" using dpos by (simp add: bd_def bitlen_alt_def)
  have nb: "2 ^ nat (bn - 1) \<le> n" "n < 2 ^ nat bn"
    using bitlen_bounds [OF npos] by (simp_all add: bn_def)
  have db: "2 ^ nat (bd - 1) \<le> d" "d < 2 ^ nat bd"
    using bitlen_bounds [OF dpos] by (simp_all add: bd_def)
  have pw: "(2::rat) powi k = of_int (2 ^ nat k)" if "0 \<le> k" for k
    using that by (simp add: power_int_nonneg_exp)
  have nr: "(2::rat) powi (bn - 1) \<le> of_int n" "of_int n < (2::rat) powi bn"
    using nb bn1 by (simp_all only: pw of_int_le_iff of_int_less_iff)
  have dr: "(2::rat) powi (bd - 1) \<le> of_int d" "of_int d < (2::rat) powi bd"
    using db bd1 by (simp_all only: pw of_int_le_iff of_int_less_iff)
  have "a < 2 powi bn / 2 powi (bd - 1)"
    unfolding adiv using nr(2) dr(1) npos by (intro frac_less) simp_all
  also have "\<dots> = 2 powi (bn - bd + 1)"
    by (simp add: power_int_diff [symmetric] algebra_simps)
  finally have lt: "a < 2 powi (bn - bd + 1)" .
  have "2 powi (bn - 1) / 2 powi bd < a"
    unfolding adiv using nr(1) dr(2) dpos by (intro frac_less2) simp_all
  moreover have "(2::rat) powi (bn - 1) / 2 powi bd = 2 powi (bn - bd - 1)"
    by (simp add: power_int_diff [symmetric] algebra_simps)
  ultimately have gt: "2 powi (bn - bd - 1) < a" by simp
  have bq: "binade q = (if 2 powi (bn - bd) \<le> a then bn - bd else bn - bd - 1)"
    by (simp add: binade_def Let_def a_def [symmetric] n_def [symmetric] d_def [symmetric] bn_def bd_def)
  show "2 powi (binade q) \<le> \<bar>q\<bar>"
    using gt by (simp add: bq a_def [symmetric])
  show "\<bar>q\<bar> < 2 powi (binade q + 1)"
    using lt by (simp add: bq a_def [symmetric] not_le)
qed

lemma powi2_less_imp:
  assumes "(2::rat) powi m < 2 powi n"
  shows "m < n"
proof (rule ccontr)
  assume "\<not> m < n"
  then have "n \<le> m" by simp
  then have "(2::rat) powi n \<le> 2 powi m"
    by (intro power_int_increasing) simp_all
  with assms show False by simp
qed

lemma binade_unique:
  assumes "2 powi e \<le> \<bar>q\<bar>" and "\<bar>q\<bar> < 2 powi (e + 1)"
  shows "binade q = e"
proof -
  have "\<not> (2::rat) powi e \<le> 0" by (simp add: not_le)
  then have q0: "q \<noteq> 0" using assms(1) by auto
  note b = binade_bounds [OF q0]
  have "(2::rat) powi e < 2 powi (binade q + 1)" using assms(1) b(2) by simp
  then have 1: "e < binade q + 1" by (rule powi2_less_imp)
  have "(2::rat) powi (binade q) < 2 powi (e + 1)" using assms(2) b(1) by simp
  then have 2: "binade q < e + 1" by (rule powi2_less_imp)
  from 1 2 show ?thesis by simp
qed

lemma round_half_even_of_int: "round_half_even (of_int z) = z"
  by (simp add: round_half_even_def)

lemma round_half_even_nonneg: "0 \<le> q \<Longrightarrow> 0 \<le> round_half_even q"
  by (auto simp add: round_half_even_def Let_def)

lemma round_half_even_nonpos:
  assumes "q \<le> 0"
  shows "round_half_even q \<le> 0"
proof -
  have f0: "\<lfloor>q\<rfloor> \<le> 0" using assms by (simp add: floor_le_iff)
  have "\<lfloor>q\<rfloor> + 1 \<le> 0" if "0 < q - of_int \<lfloor>q\<rfloor>"
  proof -
    from that assms have "of_int \<lfloor>q\<rfloor> < (0::rat)" by linarith
    then have "\<lfloor>q\<rfloor> < 0" unfolding of_int_less_0_iff .
    then show ?thesis by linarith
  qed
  with f0 show ?thesis
    by (auto simp add: round_half_even_def Let_def)
qed

lemma round_half_even_below:
  assumes "of_int z \<le> q" and "q < of_int z + 1 / 2"
  shows "round_half_even q = z"
proof -
  have "\<lfloor>q\<rfloor> = z" using assms by (intro floor_unique) simp_all
  then show ?thesis using assms by (simp add: round_half_even_def Let_def)
qed

lemma round_half_even_above:
  assumes "of_int z - 1 / 2 < q" and "q < of_int z"
  shows "round_half_even q = z"
proof -
  have "\<lfloor>q\<rfloor> = z - 1" using assms by (intro floor_unique) simp_all
  then show ?thesis using assms by (simp add: round_half_even_def Let_def)
qed

text \<open>A number that is a double is rounded to itself.\<close>

lemma round_double_exact:
  assumes "q = of_int m * 2 powi k" and "m \<noteq> 0" and "\<bar>m\<bar> < 2 ^ 53" and "- 1074 \<le> k"
    and "\<bar>q\<bar> < 2 ^ 1024"
  shows "round_double q = Finite q"
proof -
  have q0: "q \<noteq> 0" using assms(1,2) by simp
  define e where "e = binade q"
  define j where "j = max e (- 1022) - 52"
  have "2 powi e \<le> \<bar>q\<bar>" using binade_bounds(1) [OF q0] by (simp add: e_def)
  also have "\<bar>q\<bar> = of_int \<bar>m\<bar> * 2 powi k" by (simp add: assms(1) abs_mult)
  also have "\<dots> < 2 ^ 53 * 2 powi k"
  proof -
    have "(of_int \<bar>m\<bar> :: rat) < of_int (2 ^ 53)" using assms(3) by (simp only: of_int_less_iff)
    then show ?thesis by simp
  qed
  also have "\<dots> = 2 powi (53 + k)" by (simp add: power_int_add)
  finally have "e < 53 + k" by (rule powi2_less_imp)
  then have jk: "j \<le> k" using assms(4) by (simp add: j_def)
  have "q / 2 powi j = of_int m * 2 powi (k - j)"
    by (simp add: assms(1) power_int_diff)
  also have "\<dots> = of_int (m * 2 ^ nat (k - j))"
    using jk by (simp add: power_int_nonneg_exp)
  finally have qj: "q / 2 powi j = of_int (m * 2 ^ nat (k - j))" .
  have r: "of_int (round_half_even (q / 2 powi j)) * 2 powi j = q"
    unfolding qj round_half_even_of_int using qj by (simp add: field_simps)
  show ?thesis
    using q0 assms(5) by (simp add: round_double_def Let_def e_def [symmetric] j_def [symmetric] r)
qed

lemma show_nat_nonempty: "show_nat n \<noteq> []"
  by (cases "n < 10") (simp_all add: show_nat_lt10 show_nat_ge10)

lemma length_show_nat: "n < 10 ^ m \<Longrightarrow> 0 < m \<Longrightarrow> length (show_nat n) \<le> m"
proof (induction n arbitrary: m rule: show_nat.induct)
  case (1 n)
  show ?case
  proof (cases "n < 10")
    case True
    then show ?thesis using 1(3) by (simp add: show_nat_lt10)
  next
    case False
    obtain k where m: "m = Suc k" using 1(3) by (cases m) auto
    have k: "0 < k" using False 1(2) m by (cases k) auto
    have "n div 10 < 10 ^ k" using 1(2) m by (simp add: less_mult_imp_div_less mult.commute)
    from 1(1) [OF False this k] show ?thesis using False m by (simp add: show_nat_ge10)
  qed
qed


lemma round_half_even_numeral [simp]: "round_half_even (numeral k) = numeral k"
  using round_half_even_of_int [of "numeral k"] by simp

lemma round_half_even_0 [simp]: "round_half_even 0 = 0"
  using round_half_even_of_int [of 0] by simp

lemma replicate_numeral: "replicate (numeral k) x = x # replicate (pred_numeral k) x"
  by (simp add: numeral_eq_Suc)

lemma format_6f_five: "format_6f (Finite 5) = ''5.000000''"
  by (simp add: fixed6_def pad6_def show_nat_lt10 show_nat_ge10 digit_char_def replicate_numeral)
lemma format_6f_minus_ten: "format_6f (Finite (-10)) = ''-10.000000''"
  by (simp add: fixed6_def pad6_def show_nat_lt10 show_nat_ge10 digit_char_def replicate_numeral)
lemma format_6f_five_halves: "format_6f (Finite (5/2)) = ''2.500000''"
  by (simp add: fixed6_def pad6_def show_nat_lt10 show_nat_ge10 digit_char_def)

lemma pad6_length: "k < 1000000 \<Longrightarrow> length (pad6 k) = 6"
  using length_show_nat [of k 6] by (simp add: pad6_def)

lemma pad6_digits: "set (pad6 k) \<subseteq> set ''0123456789''"
  using show_nat_digits [of k] by (auto simp add: pad6_def)

lemma fixed6_shape:
  "\<exists>ip fp. fixed6 q = ip @ ''.'' @ fp \<and> ip \<noteq> [] \<and> set ip \<subseteq> set ''0123456789''
      \<and> length fp = 6 \<and> set fp \<subseteq> set ''0123456789''"
proof -
  define n where "n = nat (round_half_even (q * 1000000))"
  have "fixed6 q = show_nat (n div 1000000) @ ''.'' @ pad6 (n mod 1000000)"
    by (simp add: fixed6_def n_def Let_def)
  moreover have "length (pad6 (n mod 1000000)) = 6" by (rule pad6_length) simp
  ultimately show ?thesis
    using show_nat_nonempty show_nat_digits pad6_digits by blast
qed

lemma round_double_five: "round_double 5 = Finite 5"
  by (rule round_double_exact [of 5 5 0]) simp_all

lemma round_double_five_halves: "round_double (5/2) = Finite (5/2)"
  by (rule round_double_exact [of _ 5 "-1"]) simp_all

lemma round_double_minus_ten: "round_double (-10) = Finite (-10)"
  by (rule round_double_exact [of _ "-10" "0"]) simp_all

lemma round_half_even_error: "\<bar>of_int (round_half_even x) - x\<bar> \<le> 1 / 2"
proof -
  have "of_int \<lfloor>x\<rfloor> \<le> x" and "x < of_int \<lfloor>x\<rfloor> + 1" by linarith+
  then show ?thesis
    by (auto simp add: round_half_even_def Let_def abs_le_iff)
qed

lemma round_double_in_range:
  assumes "q \<noteq> 0" and "\<bar>q\<bar> < 2 ^ 1023"
  shows "\<bar>of_int (round_half_even (q / 2 powi (max (binade q) (- 1022) - 52)))
           * 2 powi (max (binade q) (- 1022) - 52)\<bar> < (2::rat) ^ 1024"
proof -
  define j where "j = max (binade q) (- 1022) - 52"
  define u :: rat where "u = 2 powi j"
  have upos: "0 < u" by (simp add: u_def)
  have "(2::rat) powi (binade q) < 2 powi 1023"
    using binade_bounds(1) [OF assms(1)] assms(2) by simp
  then have "binade q < 1023" by (rule powi2_less_imp)
  then have "j \<le> 970" by (simp add: j_def)
  then have "u \<le> 2 powi 970" unfolding u_def by (intro power_int_increasing) simp_all
  then have u970: "u \<le> 2 ^ 970" by simp
  define z where "z = round_half_even (q / u)"
  have "of_int z * u - q = (of_int z - q / u) * u"
    using upos by (simp add: left_diff_distrib)
  then have "\<bar>of_int z * u - q\<bar> = \<bar>of_int z - q / u\<bar> * u"
    using upos by (simp only: abs_mult abs_of_pos)
  also have "\<dots> \<le> 1 / 2 * u"
    using round_half_even_error [of "q / u"] upos
    by (intro mult_right_mono) (simp_all add: z_def)
  finally have "\<bar>of_int z * u - q\<bar> \<le> u / 2" by simp
  then have "\<bar>of_int z * u\<bar> \<le> \<bar>q\<bar> + u / 2" by linarith
  also have "\<dots> < 2 ^ 1023 + 2 ^ 970 / 2" using assms(2) u970 by linarith
  also have "\<dots> < (2::rat) ^ 1024" by simp
  finally show ?thesis by (simp add: z_def u_def j_def)
qed

lemma round_double_unfold:
  assumes "q \<noteq> 0"
    and "r = of_int (round_half_even (q / 2 powi (max (binade q) (- 1022) - 52)))
              * 2 powi (max (binade q) (- 1022) - 52)"
    and "\<bar>r\<bar> < 2 ^ 1024"
  shows "round_double q = (if r = 0 then (if q < 0 then NegZero else Finite 0) else Finite r)"
  using assms(1,3) unfolding assms(2) round_double_def Let_def by (simp only: if_False not_le [symmetric])

lemma round_double_nonneg:
  assumes "0 \<le> q" and "\<bar>q\<bar> < 2 ^ 1023"
  shows "\<exists>r. round_double q = Finite r \<and> 0 \<le> r"
proof (cases "q = 0")
  case True
  then show ?thesis by (simp add: round_double_def)
next
  case False
  define u :: rat where "u = 2 powi (max (binade q) (- 1022) - 52)"
  define r where "r = of_int (round_half_even (q / u)) * u"
  have upos: "0 < u" by (simp add: u_def)
  have "0 \<le> round_half_even (q / u)"
    using assms(1) upos by (intro round_half_even_nonneg) simp
  then have r0: "0 \<le> r" using upos by (simp add: r_def)
  have "\<bar>r\<bar> < 2 ^ 1024"
    using round_double_in_range [OF False assms(2)] by (simp only: r_def u_def)
  from round_double_unfold [OF False _ this]
  have "round_double q = (if r = 0 then (if q < 0 then NegZero else Finite 0) else Finite r)"
    by (simp only: r_def u_def)
  then show ?thesis using r0 assms(1) by (cases "r = 0") simp_all
qed

lemma round_double_neg:
  assumes "q < 0" and "\<bar>q\<bar> < 2 ^ 1023"
  shows "round_double q = NegZero \<or> (\<exists>r. round_double q = Finite r \<and> r < 0)"
proof -
  have q0: "q \<noteq> 0" using assms(1) by simp
  define u :: rat where "u = 2 powi (max (binade q) (- 1022) - 52)"
  define r where "r = of_int (round_half_even (q / u)) * u"
  have upos: "0 < u" by (simp add: u_def)
  have "q / u \<le> 0" using assms(1) upos by (simp add: divide_le_0_iff)
  then have "round_half_even (q / u) \<le> 0" by (rule round_half_even_nonpos)
  then have r0: "r \<le> 0"
    using upos by (simp add: r_def mult_le_0_iff)
  have "\<bar>r\<bar> < 2 ^ 1024"
    using round_double_in_range [OF q0 assms(2)] by (simp only: r_def u_def)
  from round_double_unfold [OF q0 _ this]
  have "round_double q = (if r = 0 then (if q < 0 then NegZero else Finite 0) else Finite r)"
    by (simp only: r_def u_def)
  then show ?thesis using r0 assms(1) by (cases "r = 0") simp_all
qed

lemma float_sub_Finite:
  "float_sub (Finite b) (Finite a) = (if a = 0 then Finite b else round_double (b - a))"
  by (simp add: float_sub_def)

lemma format_6f_sub_shape:
  assumes "\<bar>b - a\<bar> < 2 ^ 1023"
  shows "\<exists>ip fp. format_6f (float_sub (Finite b) (Finite a))
             = (if b < a then ''-'' else []) @ ip @ ''.'' @ fp
           \<and> ip \<noteq> [] \<and> set ip \<subseteq> set ''0123456789''
           \<and> length fp = 6 \<and> set fp \<subseteq> set ''0123456789''"
proof (cases "a = 0")
  case True
  then show ?thesis
    using fixed6_shape [of b] fixed6_shape [of "- b"] by (simp add: float_sub_Finite)
next
  case a: False
  show ?thesis
  proof (cases "b < a")
    case True
    then have "b - a < 0" by simp
    from round_double_neg [OF this assms]
    show ?thesis
    proof
      assume "round_double (b - a) = NegZero"
      moreover have "''-0.000000'' = ''-'' @ ''0'' @ ''.'' @ ''000000''" by simp
      ultimately show ?thesis using a True
        by (simp only: float_sub_Finite if_False if_True format_6f.simps) 
           (intro exI [of _ "''0''"] exI [of _ "''000000''"], simp)
    next
      assume "\<exists>r. round_double (b - a) = Finite r \<and> r < 0"
      then obtain r where "round_double (b - a) = Finite r" "r < 0" by blast
      then show ?thesis
        using a True fixed6_shape [of "- r"] by (simp add: float_sub_Finite)
    qed
  next
    case False
    then have "0 \<le> b - a" by simp
    from round_double_nonneg [OF this assms]
    obtain r where "round_double (b - a) = Finite r" "0 \<le> r" by blast
    then show ?thesis
      using a False fixed6_shape [of r] by (simp add: float_sub_Finite)
  qed
qed

text \<open>Rounding at given numbers.\<close>

lemma round_half_even_tie:
  assumes "q = of_int z + 1 / 2"
  shows "round_half_even q = (if even z then z else z + 1)"
proof -
  have "\<lfloor>q\<rfloor> = z" unfolding assms by (intro floor_unique) simp_all
  then show ?thesis by (simp add: round_half_even_def Let_def assms)
qed

lemma round_double_eval:
  assumes "2 powi e \<le> \<bar>q\<bar>" and "\<bar>q\<bar> < 2 powi (e + 1)"
    and "j = max e (- 1022) - 52"
    and "round_half_even (q / 2 powi j) = z"
    and "r = of_int z * 2 powi j"
    and "\<bar>r\<bar> < 2 ^ 1024" and "r \<noteq> 0"
  shows "round_double q = Finite r"
proof -
  have e: "binade q = e" using assms(1,2) by (rule binade_unique)
  have "\<not> (2::rat) powi e \<le> 0" by (simp add: not_le)
  then have q0: "q \<noteq> 0" using assms(1) by auto
  have r: "r = of_int (round_half_even (q / 2 powi (max (binade q) (- 1022) - 52)))
                * 2 powi (max (binade q) (- 1022) - 52)"
    unfolding e assms(3) [symmetric] assms(4) by (rule assms(5))
  have "round_double q = (if r = 0 then (if q < 0 then NegZero else Finite 0) else Finite r)"
    using q0 r assms(6) by (rule round_double_unfold)
  then show ?thesis using assms(7) by simp
qed

lemma late_sum: "round_double (2 ^ 33 - 1 / 2 ^ 20 + 5) = Finite (2 ^ 33 + 5)"
proof (rule round_double_eval [where e = 33 and j = "- 19" and z = "2 ^ 52 + 5 * 2 ^ 19"])
  have "(2 ^ 33 - 1 / 2 ^ 20 + 5) / 2 powi (- 19) = (of_int (2 ^ 52 + 5 * 2 ^ 19 - 1) + 1 / 2 :: rat)"
    by (simp add: power_int_minus)
  then show "round_half_even ((2 ^ 33 - 1 / 2 ^ 20 + 5) / 2 powi (- 19)) = 2 ^ 52 + 5 * 2 ^ 19"
    by (simp only: round_half_even_tie [OF refl]) simp
qed (simp_all add: power_int_minus)

lemma late_difference: "round_double (2 ^ 33 + 5 - (2 ^ 33 - 1 / 2 ^ 20)) = Finite (5 + 1 / 2 ^ 20)"
proof -
  have "round_double (5 + 1 / 2 ^ 20) = Finite (5 + 1 / 2 ^ 20)"
    by (rule round_double_exact [of _ "5 * 2 ^ 20 + 1" "- 20"]) (simp_all add: power_int_minus)
  then show ?thesis by simp
qed

lemma format_6f_late: "format_6f (Finite (5 + 1 / 2 ^ 20)) = ''5.000001''"
proof -
  have "round_half_even ((5 + 1 / 2 ^ 20) * 1000000) = 5000001"
    by (rule round_half_even_above) simp_all
  then show ?thesis
    by (simp add: fixed6_def pad6_def show_nat_lt10 show_nat_ge10 digit_char_def
        replicate_numeral)
qed

lemma round_double_clock: "round_double 1700000005 = Finite 1700000005"
  by (rule round_double_exact [of _ 1700000005 0]) simp_all


text \<open>The duration between two readings of the example clock.\<close>

lemma example_duration:
  "format_6f (float_sub (Finite (1700000000 + 5 / 2)) (Finite 1700000000)) = ''2.500000''"
  using format_6f_five_halves by (simp add: float_sub_Finite round_double_five_halves)



section \<open>The claims\<close>

subsection \<open>The encoder\<close>




text \<open>
  C6. A string value that contains the pair separator \<open>,\<close> is rendered with a backslash
  put immediately before every comma in it; a string value without a comma is rendered
  with no escaping: as it is, or as the two quotes when it is empty.
\<close>

theorem comma_values_are_escaped:
  "py_str (kvp_value KVPSEP (VStr v)) =
     (if CHR '','' \<in> set v
      then concat (map (\<lambda>c. if c = CHR '','' then [backslash, CHR '',''] else [c]) v)
      else if v = [] then [quote, quote] else v)
   \<and> format_kvp [(k, VStr v)] = k @ ''='' @ py_str (kvp_value KVPSEP (VStr v))"
  by (simp add: kvp_value_str format_kvp_eq)

theorem comma_values_are_escaped_witness:
  "format_kvp [(''path'', VStr ''a,b,c'')]
     = ''path=a'' @ [backslash] @ '',b'' @ [backslash] @ '',c''
   \<and> format_kvp [(''path'', VStr ''a=b'')] = ''path=a=b''"
  using comma_values_are_escaped [of "''a,b,c''" "''path''"]
    comma_values_are_escaped [of "''a=b''" "''path''"]
  by simp

text \<open>
  C4, as amended. An empty string value is rendered as the two quotes, and the encoding
  of a key with the empty string differs from its encoding with any other string value
  except the string that consists of two quotes itself.
\<close>

theorem empty_string_encoding:
  assumes "v \<noteq> []" and "v \<noteq> [quote, quote]"
  shows "format_kvp [(k, VStr [])] = k @ ''='' @ [quote, quote]
       \<and> format_kvp [(k, VStr v)] \<noteq> format_kvp [(k, VStr [])]"
proof -
  have e: "format_kvp [(k, VStr [])] = k @ ''='' @ [quote, quote]"
    by (simp add: format_kvp_eq kvp_value_str)
  have "py_str (kvp_value KVPSEP (VStr v)) \<noteq> [quote, quote]"
  proof (cases "CHR '','' \<in> set v")
    case True
    then have "CHR '','' \<in> set (py_str (kvp_value KVPSEP (VStr v)))"
      by (auto simp add: kvp_value_str)
    moreover have "CHR '','' \<notin> set [quote, quote]" by (simp add: quote_def)
    ultimately show ?thesis by metis
  next
    case False
    then show ?thesis using assms by (simp add: kvp_value_str)
  qed
  then have "format_kvp [(k, VStr v)] \<noteq> k @ ''='' @ [quote, quote]"
    by (simp add: format_kvp_eq)
  with e show ?thesis by simp
qed

theorem empty_string_encoding_witness:
  "''x'' \<noteq> [] \<and> ''x'' \<noteq> [quote, quote]
   \<and> format_kvp [(''k'', VStr [])] = ''k='' @ [quote, quote]
   \<and> format_kvp [(''k'', VStr ''x'')] \<noteq> format_kvp [(''k'', VStr [])]"
proof -
  have h: "''x'' \<noteq> []" "''x'' \<noteq> [quote, quote]" by simp_all
  show ?thesis using h empty_string_encoding [OF h, of "''k''"] by auto
qed

text \<open>
  The claim as stated fails: the non-empty string made of two quotes is encoded exactly
  as the empty string is.
\<close>

theorem empty_string_encoding_counterexample:
  "[quote, quote] \<noteq> []
   \<and> format_kvp [(''k'', VStr [quote, quote])] = format_kvp [(''k'', VStr [])]"
  by (simp add: format_kvp_eq kvp_value_str quote_def)

subsection \<open>The end of an activity\<close>

text \<open>
  C7. Called with no start time, \<open>end\<close> computes no duration (its dictionary has no
  field \<open>dur\<close>) and logs exactly \<open>name.end ; kvp\<close>, for every name and attribute set, in
  either template family; it reads the clock once and returns.
\<close>

theorem end_without_start:
  "end_activity logger name None level status_code kvp w =
     (Inr (),
      w\<lparr>reads := Suc (reads w),
        emitted := emitted w @
          [(logger, (case level of None \<Rightarrow> DEFAULT_LEVEL w | Some l \<Rightarrow> l),
            name @ ''.end ; '' @ format_kvp kvp)]\<rparr>)
   \<and> end_fields timestamp name kvp_str status_code t1 None ''dur'' = None"
  by (simp add: end_without_start_result end_fields_def)

theorem end_without_start_witness:
  "emitted (snd (end_activity ''hello'' ''job'' None None None [(''n'', VInt 5)] example_world))
     = [(''hello'', 10, ''job.end ; n=5'')]"
  using end_without_start [of "''hello''" "''job''" None None "[(''n'', VInt 5)]" example_world]
  by (simp add: example_world_def format_kvp_eq kvp_value_other show_int_def
      show_nat_lt10 digit_char_def)

text \<open>
  C3, as amended. \<open>end\<close> puts \<open>status_code\<close> (0 when left out) into the dictionary of
  its template under the name \<open>status\<close>, where a template that refers to \<open>{status}\<close>
  would find it; but no template of the module refers to that field, so it does not
  appear in the message. And \<open>end\<close> never looks at it: for any two values of
  \<open>status_code\<close> the result, the template, the severity and the message are the same.
\<close>

theorem status_code_is_not_shown:
  "end_activity logger name t0 level status_code kvp w
     = end_activity logger name t0 level status_code' kvp w
   \<and> end_fields timestamp name kvp_str status_code t1 t0 ''status''
       = Some (case status_code of None \<Rightarrow> VInt 0 | Some c \<Rightarrow> c)
   \<and> format_str ''{status}'' (end_fields timestamp name kvp_str status_code t1 t0)
       = Inr (py_str (case status_code of None \<Rightarrow> VInt 0 | Some c \<Rightarrow> c))
   \<and> list_all (\<lambda>family. list_all (\<lambda>(mtype, fmt). \<not> contains ''{status}'' fmt) family)
       MESSAGE_FORMATS"
proof -
  have "end_activity logger name t0 level status_code kvp w
     = end_activity logger name t0 level status_code' kvp w"
    by (cases t0) (simp_all add: end_without_start_result end_with_start_result)
  moreover have "end_fields timestamp name kvp_str status_code t1 t0 ''status''
       = Some (case status_code of None \<Rightarrow> VInt 0 | Some c \<Rightarrow> c)"
    by (cases t0) (simp_all add: end_fields_def)
  moreover have "format_str ''{status}'' (end_fields timestamp name kvp_str status_code t1 t0)
       = Inr (py_str (case status_code of None \<Rightarrow> VInt 0 | Some c \<Rightarrow> c))"
    by (cases t0) (simp_all add: end_fields_def format_str.simps field_value_def)
  moreover have "list_all (\<lambda>family. list_all (\<lambda>(mtype, fmt). \<not> contains ''{status}'' fmt) family)
       MESSAGE_FORMATS"
    by (simp add: MESSAGE_FORMATS_def KVPSECSEP_def)
  ultimately show ?thesis by simp
qed

theorem status_code_is_not_shown_witness:
  "snd (end_activity ''hello'' ''job'' None None (Some (VInt 7)) [] example_world)
     = snd (end_activity ''hello'' ''job'' None None None [] example_world)"
  using status_code_is_not_shown
    [of "''hello''" "''job''" None None "Some (VInt 7)" "[]" example_world None]
  by simp

text \<open>
  The claim as stated fails: the status code 7 is nowhere in the message that \<open>end\<close>
  logs for it.
\<close>

theorem status_code_is_not_shown_counterexample:
  "emitted (snd (end_activity ''hello'' ''job'' (Some (Finite 1700000000)) None (Some (VInt 7)) []
      (example_world\<lparr>include_timestamp := False, reads := 1\<rparr>)))
     = [(''hello'', 10, ''job.end (2.500000) ; '')]
   \<and> py_str (VInt 7) = ''7''
   \<and> \<not> contains ''7'' ''job.end (2.500000) ; ''"
  using example_duration
  by (simp add: end_with_start_result example_world_def format_kvp_Nil show_int_def
      show_nat_lt10 digit_char_def)

subsection \<open>Timestamps in the messages\<close>

text \<open>
  When \<open>include_timestamp\<close> is set, the message of \<open>start\<close>, of \<open>event\<close> called without
  a format of its own, and of \<open>end\<close> called with a start time begins with the timestamp
  of the current time, as \<open>format_timestamp\<close> renders it, followed by a space.
\<close>

lemma timestamp_comes_first:
  assumes "include_timestamp w"
  shows "emitted (snd (start logger name level kvp w)) =
           emitted w @
           [(logger, (case level of None \<Rightarrow> DEFAULT_LEVEL w | Some l \<Rightarrow> l),
             format_timestamp w (clock w (reads w)) @ '' '' @ name @ ''.begin ; ''
               @ format_kvp kvp)]
       \<and> emitted (snd (event logger name level None kvp w)) =
           emitted w @
           [(logger, (case level of None \<Rightarrow> DEFAULT_LEVEL w | Some l \<Rightarrow> l),
             format_timestamp w (clock w (reads w)) @ '' '' @ name @ '' ; ''
               @ format_kvp kvp)]
       \<and> emitted (snd (end_activity logger name (Some t0) level status_code kvp w)) =
           emitted w @
           [(logger, (case level of None \<Rightarrow> DEFAULT_LEVEL w | Some l \<Rightarrow> l),
             format_timestamp w (clock w (reads w)) @ '' '' @ name @ ''.end (''
               @ format_6f (float_sub (clock w (reads w)) t0) @ '') ; ''
               @ format_kvp kvp)]"
  using assms
  by (simp add: start_result event_default_result end_with_start_result
      format_timestamp_def)

text \<open>
  C2. The code does not do what the claim says when \<open>end\<close> is called without a start
  time: with \<open>include_timestamp\<close> set, its message is \<open>name.end ; kvp\<close> with no timestamp
  before it, while the message of \<open>start\<close> in the same world begins with the timestamp.
  The template \<open>exit_nodur\<close> of the family with timestamps is the only one of that
  family without \<open>{timestamp}\<close>.
\<close>

theorem end_without_start_has_no_timestamp:
  "include_timestamp example_world
   \<and> format_timestamp example_world (clock example_world 0) = ''2023-11-14T22:13:20''
   \<and> emitted (snd (start ''hello'' ''job'' None [] example_world))
       = [(''hello'', 10, ''2023-11-14T22:13:20 job.begin ; '')]
   \<and> emitted (snd (end_activity ''hello'' ''job'' None None None [] example_world))
       = [(''hello'', 10, ''job.end ; '')]
   \<and> map_of (MESSAGE_FORMATS ! 1) ''exit_nodur'' = Some ''{func_name}.end ; {kvp}''"
  by (simp add: end_without_start_result start_result example_world_def
      format_timestamp_def format_kvp_Nil MESSAGE_FORMATS_def KVPSECSEP_def)

subsection \<open>What a call does to its surroundings\<close>




subsection \<open>The wrappers\<close>





subsection \<open>Durations\<close>

text \<open>
  C5, as amended. When \<open>end\<close> is called with the start time \<open>a\<close> and the clock reads
  \<open>b\<close> (finite numbers), the duration in its message is the float difference \<open>b - a\<close>,
  that is the double nearest to the exact difference, printed by \<open>'{:.6f}'\<close>: unless the
  difference is beyond the range of the doubles, that is an integer part, a point and
  exactly six digits, with a minus sign before them exactly when \<open>b < a\<close>. So the
  duration is non-negative when the start time is not after the current time, which
  neither the code nor the wall clock ensures. A duration from \<open>t\<close> to \<open>t + 5.0\<close> is
  printed as \<open>5.000000\<close> whenever the float sum \<open>t + 5.0\<close> is exact.
\<close>

theorem duration_of_an_activity:
  assumes "clock w (reads w) = Finite b"
  shows "emitted (snd (end_activity logger name (Some (Finite a)) level status_code kvp w)) =
           emitted w @
           [(logger, (case level of None \<Rightarrow> DEFAULT_LEVEL w | Some l \<Rightarrow> l),
             (if include_timestamp w then format_timestamp w (Finite b) @ '' '' else [])
               @ name @ ''.end ('' @ format_6f (float_sub (Finite b) (Finite a)) @ '') ; ''
               @ format_kvp kvp)]
     \<and> float_sub (Finite b) (Finite a) = (if a = 0 then Finite b else round_double (b - a))
     \<and> (\<bar>b - a\<bar> < 2 ^ 1023 \<longrightarrow>
          (\<exists>ip fp. format_6f (float_sub (Finite b) (Finite a))
                      = (if b < a then ''-'' else []) @ ip @ ''.'' @ fp
                   \<and> ip \<noteq> [] \<and> set ip \<subseteq> set ''0123456789''
                   \<and> length fp = 6 \<and> set fp \<subseteq> set ''0123456789''))
     \<and> (float_add (Finite t) (Finite 5) = Finite (t + 5) \<longrightarrow>
          format_6f (float_sub (float_add (Finite t) (Finite 5)) (Finite t)) = ''5.000000'')"
proof (intro conjI impI)
  show "emitted (snd (end_activity logger name (Some (Finite a)) level status_code kvp w)) =
           emitted w @
           [(logger, (case level of None \<Rightarrow> DEFAULT_LEVEL w | Some l \<Rightarrow> l),
             (if include_timestamp w then format_timestamp w (Finite b) @ '' '' else [])
               @ name @ ''.end ('' @ format_6f (float_sub (Finite b) (Finite a)) @ '') ; ''
               @ format_kvp kvp)]"
    by (simp add: end_with_start_result assms format_timestamp_def)
  show "float_sub (Finite b) (Finite a) = (if a = 0 then Finite b else round_double (b - a))"
    by (rule float_sub_Finite)
next
  assume "\<bar>b - a\<bar> < 2 ^ 1023"
  then show "\<exists>ip fp. format_6f (float_sub (Finite b) (Finite a))
                      = (if b < a then ''-'' else []) @ ip @ ''.'' @ fp
                   \<and> ip \<noteq> [] \<and> set ip \<subseteq> set ''0123456789''
                   \<and> length fp = 6 \<and> set fp \<subseteq> set ''0123456789''"
    by (rule format_6f_sub_shape)
next
  assume exact: "float_add (Finite t) (Finite 5) = Finite (t + 5)"
  have "float_sub (Finite (t + 5)) (Finite t) = Finite 5"
    by (simp add: float_sub_Finite round_double_five)
  then show "format_6f (float_sub (float_add (Finite t) (Finite 5)) (Finite t)) = ''5.000000''"
    unfolding exact by (simp only: format_6f_five)
qed

theorem duration_of_an_activity_witness:
  "emitted (snd (end_activity ''hello'' ''job'' (Some (Finite 1700000000)) None None []
      (example_world\<lparr>include_timestamp := False, reads := 1\<rparr>)))
     = [(''hello'', 10, ''job.end (2.500000) ; '')]
   \<and> format_6f (float_sub (float_add (Finite 1700000000) (Finite 5)) (Finite 1700000000))
     = ''5.000000''"
proof -
  let ?w = "example_world\<lparr>include_timestamp := False, reads := 1\<rparr>"
  have h: "clock ?w (reads ?w) = Finite (1700000000 + 5 / 2)"
    by (simp add: example_world_def)
  have e: "float_add (Finite 1700000000) (Finite 5) = Finite (1700000000 + 5)"
    by (simp add: round_double_clock)
  show ?thesis
    using duration_of_an_activity [OF h, of "''hello''" "''job''" 1700000000 None None "[]"
        1700000000] e example_duration
    by (simp add: example_world_def format_kvp_Nil)
qed

text \<open>
  The claim as stated fails: with a start time ten seconds after the reading of the
  clock the duration is \<open>-10.000000\<close>; and for \<open>t = 2 ^ 33 - 2 ^ -20\<close> the sum
  \<open>t + 5.0\<close> is rounded, and the duration from \<open>t\<close> to it is printed as \<open>5.000001\<close>.
\<close>

theorem duration_of_an_activity_counterexample:
  "emitted (snd (end_activity ''hello'' ''job'' (Some (Finite 1700000010)) None None []
      (example_world\<lparr>include_timestamp := False\<rparr>)))
     = [(''hello'', 10, ''job.end (-10.000000) ; '')]
   \<and> format_6f (float_sub (float_add (Finite (2 ^ 33 - 1 / 2 ^ 20)) (Finite 5))
         (Finite (2 ^ 33 - 1 / 2 ^ 20)))
     = ''5.000001''"
proof -
  have "format_6f (float_sub (Finite 1700000000) (Finite 1700000010)) = ''-10.000000''"
    using format_6f_minus_ten by (simp add: float_sub_Finite round_double_minus_ten)
  then have 1: "emitted (snd (end_activity ''hello'' ''job'' (Some (Finite 1700000010)) None
      None [] (example_world\<lparr>include_timestamp := False\<rparr>)))
     = [(''hello'', 10, ''job.end (-10.000000) ; '')]"
    by (simp add: end_with_start_result example_world_def format_kvp_Nil)
  have "float_add (Finite (2 ^ 33 - 1 / 2 ^ 20)) (Finite 5) = Finite (2 ^ 33 + 5)"
    using late_sum by simp
  moreover have "float_sub (Finite (2 ^ 33 + 5)) (Finite (2 ^ 33 - 1 / 2 ^ 20))
      = Finite (5 + 1 / 2 ^ 20)"
    using late_difference by (simp add: float_sub_Finite)
  ultimately have 2: "format_6f (float_sub (float_add (Finite (2 ^ 33 - 1 / 2 ^ 20)) (Finite 5))
         (Finite (2 ^ 33 - 1 / 2 ^ 20))) = ''5.000001''"
    using format_6f_late by (simp only:)
  from 1 2 show ?thesis by (rule conjI)
qed

end
